theory Spec2Isabelle
  imports Complex_Main "HOL-Library.Multiset" "HOL-Library.Sublist"
begin

section \<open>Python strings: strip, split and join\<close>

text \<open>
  A name is a \<open>string\<close>; every \<open>char\<close> stands for one code point below 256.
  \<open>isspace\<close> lists the code points of that range that Python's \<open>str.strip()\<close>
  (no argument) removes: TAB, LF, VT, FF, CR, FS, GS, RS, US, SPACE, NEL and NBSP.
\<close>

definition isspace :: "char \<Rightarrow> bool" where
  "isspace c = (c \<in> set [CHR 0x09, CHR 0x0A, CHR 0x0B, CHR 0x0C, CHR 0x0D,
                          CHR 0x1C, CHR 0x1D, CHR 0x1E, CHR 0x1F, CHR 0x20,
                          CHR 0x85, CHR 0xA0])"

text \<open>\<open>name.strip()\<close>: whitespace is dropped at both ends.\<close>

definition strip :: "string \<Rightarrow> string" where
  "strip s = rev (dropWhile isspace (rev (dropWhile isspace s)))"

text \<open>
  \<open>pieces P s\<close> cuts \<open>s\<close> at every character satisfying \<open>P\<close> and keeps the empty
  pieces, so the result is never empty. \<open>s.split(' ')\<close> is \<open>pieces\<close> at the single
  character SPACE.
\<close>

fun pieces :: "(char \<Rightarrow> bool) \<Rightarrow> string \<Rightarrow> string list" where
  "pieces P [] = [[]]"
| "pieces P (c # cs) =
     (if P c then [] # pieces P cs
      else (case pieces P cs of [] \<Rightarrow> [[c]] | p # ps \<Rightarrow> (c # p) # ps))"

definition split_space :: "string \<Rightarrow> string list" where
  "split_space s = pieces (\<lambda>c. c = CHR '' '') s"

text \<open>\<open>' '.join(parts)\<close>.\<close>

fun join_space :: "string list \<Rightarrow> string" where
  "join_space [] = []"
| "join_space [p] = p"
| "join_space (p # q # ps) = p @ CHR '' '' # join_space (q # ps)"

text \<open>
  The whitespace-separated tokens of a string, as the claim about names speaks of them
  (Python's \<open>s.split()\<close>): the non-empty pieces between whitespace characters.
\<close>

definition whitespace_tokens :: "string \<Rightarrow> string list" where
  "whitespace_tokens s = filter (\<lambda>w. w \<noteq> []) (pieces isspace s)"

section \<open>Observable effects\<close>

text \<open>
  Every function of the model returns its value together with the list of effects it
  performed, in order: calls of the external name-resolution provider, printed lines,
  loading of the two model artifacts, and the calls of the scaler and of the classifier.
\<close>

datatype effect =
    Lookup string string
  | Print string
  | LoadModel
  | LoadScaler
  | Transform "real option list list"
  | Predict "real list list"

section \<open>Name resolution: \<open>get_player_id\<close>\<close>

text \<open>
  The provider \<open>playerid_lookup(last, first)\<close> either raises or returns a table, of
  which the code reads the column \<open>key_mlbam\<close> (integers, in the provider's order).
\<close>

datatype lookup_result = LookupRaises | LookupTable "int list"

type_synonym provider = "string \<Rightarrow> string \<Rightarrow> lookup_result"

text \<open>
  \<open>get_player_id\<close>: fewer than two parts give \<open>None\<close> before the provider is called;
  an exception of the provider is caught by the bare \<open>except\<close> and gives \<open>None\<close>;
  an empty table falls through to the final \<open>return None\<close>.
\<close>

definition get_player_id :: "provider \<Rightarrow> string \<Rightarrow> int option \<times> effect list" where
  "get_player_id playerid_lookup name =
     (let parts = split_space (strip name) in
      if length parts < 2 then (None, [])
      else
        (let first = parts ! 0;
             last = join_space (drop 1 parts)
         in (case playerid_lookup last first of
               LookupRaises \<Rightarrow> (None, [Lookup last first])
             | LookupTable keys \<Rightarrow>
                 (case keys of
                    [] \<Rightarrow> (None, [Lookup last first])
                  | k # _ \<Rightarrow> (Some k, [Lookup last first])))))"

text \<open>\<open>if pid:\<close> is false for \<open>None\<close> and for the integer 0.\<close>

definition truthy :: "int option \<Rightarrow> bool" where
  "truthy pid = (case pid of None \<Rightarrow> False | Some k \<Rightarrow> k \<noteq> 0)"

section \<open>The historical dataset\<close>

text \<open>
  One row of the cached Statcast file, with the columns the code reads. \<open>events\<close> is
  empty on most pitches, and the two measurements may be missing; a missing cell
  (pandas' NaN) is \<open>None\<close>. Floating-point numbers are modelled by the reals they stand
  for, and a NaN result by \<open>None\<close>.
\<close>

record pitch_event =
  pitcher :: int
  batter :: int
  events :: "string option"
  release_speed :: "real option"
  release_spin_rate :: "real option"
  p_throws :: string
  stand :: string

text \<open>
  \<open>Series.mean()\<close> skips missing cells; with no cell left the result is NaN.
\<close>

definition mean :: "real option list \<Rightarrow> real option" where
  "mean col =
     (let present = List.map_filter (\<lambda>c. c) col in
      if present = [] then None
      else Some (sum_list present / real (length present)))"

section \<open>Pitcher profiles: \<open>get_pitcher_profile\<close>\<close>

record pitcher_profile =
  pp_release_speed :: "real option"
  pp_release_spin_rate :: "real option"
  pp_p_throws :: nat

text \<open>
  The files and external capabilities a call can see: the two model artifacts (the
  loaded classifier and scaler, \<open>None\<close> when the file is absent), the cached dataset
  and the derived statistics file (\<open>None\<close> when absent), and the name-resolution
  provider.
\<close>

record batter_stats =
  avg :: real
  slg :: real
  iso :: real

record env =
  model_file :: "(real list list \<Rightarrow> real list list) option"
  scaler_file :: "(real option list list \<Rightarrow> real list list) option"
  cache_file :: "pitch_event list option"
  stats_file :: "(int \<times> batter_stats) list option"
  playerid_lookup :: provider

definition get_pitcher_profile :: "env \<Rightarrow> string \<Rightarrow> pitcher_profile option \<times> effect list" where
  "get_pitcher_profile e name =
     (case cache_file e of
        None \<Rightarrow> (None, [])
      | Some df \<Rightarrow>
          (let (pid, tr) = get_player_id (playerid_lookup e) name;
               player_data = filter (\<lambda>r. Some (pitcher r) = pid) df
           in if truthy pid \<and> player_data \<noteq> [] then
                (Some \<lparr>pp_release_speed = mean (map release_speed player_data),
                       pp_release_spin_rate = mean (map release_spin_rate player_data),
                       pp_p_throws = (if p_throws (hd player_data) = ''R'' then 0 else 1)\<rparr>,
                 tr)
              else
                (Some \<lparr>pp_release_speed = mean (map release_speed df),
                       pp_release_spin_rate = mean (map release_spin_rate df),
                       pp_p_throws = 0\<rparr>,
                 tr @ [Print (''Pitcher '' @ name @ '' not found in cache. Using league average.'')])))"

section \<open>Batter aggregates: \<open>calculate_batter_stats\<close>\<close>

definition hit_events :: "string list" where
  "hit_events = [''single'', ''double'', ''triple'', ''home_run'']"

definition ab_events :: "string list" where
  "ab_events = hit_events @ [''field_out'', ''strikeout'', ''force_out'',
                             ''grounded_into_double_play'', ''fielders_choice'']"

text \<open>\<open>group['events'].isin(evs).sum()\<close>: a missing event is in no list.\<close>

definition count_isin :: "string list \<Rightarrow> pitch_event list \<Rightarrow> nat" where
  "count_isin evs grp =
     length (filter (\<lambda>r. case events r of None \<Rightarrow> False | Some ev \<Rightarrow> ev \<in> set evs) grp)"

text \<open>\<open>(group['events'] == ev).sum()\<close>.\<close>

definition count_eq :: "string \<Rightarrow> pitch_event list \<Rightarrow> nat" where
  "count_eq ev grp = length (filter (\<lambda>r. events r = Some ev) grp)"

definition get_stats :: "pitch_event list \<Rightarrow> batter_stats" where
  "get_stats grp =
     (let hits = count_isin hit_events grp;
          ab = count_isin ab_events grp;
          singles = count_eq ''single'' grp;
          doubles = count_eq ''double'' grp;
          triples = count_eq ''triple'' grp;
          hrs = count_eq ''home_run'' grp;
          tb = singles + 2 * doubles + 3 * triples + 4 * hrs
      in if ab = 0 then \<lparr>avg = 0, slg = 0, iso = 0\<rparr>
         else
           (let a = real hits / real ab;
                s = real tb / real ab
            in \<lparr>avg = a, slg = s, iso = s - a\<rparr>))"

text \<open>
  \<open>df.groupby('batter').apply(get_stats)\<close>: one entry per batter identifier that
  occurs in the dataset, in ascending order of the identifier, computed from that
  batter's rows.
\<close>

definition calculate_batter_stats :: "pitch_event list \<Rightarrow> (int \<times> batter_stats) list" where
  "calculate_batter_stats df =
     map (\<lambda>b. (b, get_stats (filter (\<lambda>r. batter r = b) df)))
         (sort (remdups (map batter df)))"

section \<open>Batter profiles: \<open>get_batter_profile\<close>\<close>

record batter_profile =
  bp_stand :: nat
  bp_avg :: real
  bp_slg :: real
  bp_iso :: real

definition default_batter_profile :: batter_profile where
  "default_batter_profile = \<lparr>bp_stand = 0, bp_avg = 0.240, bp_slg = 0.400, bp_iso = 0.160\<rparr>"

definition get_batter_profile :: "env \<Rightarrow> string \<Rightarrow> batter_profile option \<times> effect list" where
  "get_batter_profile e name =
     (case (cache_file e, stats_file e) of
        (Some df, Some stats_df) \<Rightarrow>
          (let (pid, tr) = get_player_id (playerid_lookup e) name;
               player_data = filter (\<lambda>r. Some (batter r) = pid) df;
               stand_code = (if player_data \<noteq> [] then
                               (if stand (hd player_data) = ''R'' then 0 else 1)
                             else 0);
               player_stats = filter (\<lambda>(b, s). Some b = pid) stats_df
           in if truthy pid \<and> player_stats \<noteq> [] then
                (Some \<lparr>bp_stand = stand_code,
                       bp_avg = avg (snd (hd player_stats)),
                       bp_slg = slg (snd (hd player_stats)),
                       bp_iso = iso (snd (hd player_stats))\<rparr>,
                 tr)
              else
                (Some default_batter_profile,
                 tr @ [Print (''Batter '' @ name @ '' not found in cache. Assuming League Average.'')]))
      | _ \<Rightarrow> (None, []))"

section \<open>The lineup optimizer: \<open>optimize_lineup\<close>\<close>

record matchup =
  mp_batter :: string
  predicted_hit_prob :: real

text \<open>
  What a call returns: one of the error strings, the ranked list, or an exception
  (reading \<open>predictions[i][0]\<close> outside the classifier's output raises IndexError).
\<close>

datatype py_error = IndexError

datatype lineup_result = Message string | Results "matchup list" | Raised py_error

text \<open>The feature row of one matchup, in the order the classifier was trained on.\<close>

definition feature_row :: "pitcher_profile \<Rightarrow> batter_profile \<Rightarrow> real option list" where
  "feature_row pitcher_stats batter_stats =
     [pp_release_speed pitcher_stats,
      pp_release_spin_rate pitcher_stats,
      Some (real (pp_p_throws pitcher_stats)),
      Some (real (bp_stand batter_stats)),
      Some (bp_avg batter_stats),
      Some (bp_slg batter_stats),
      Some (bp_iso batter_stats)]"

text \<open>
  The loop over \<open>batter_names\<close>: it returns \<open>lineup_data\<close>, \<open>valid_batters\<close> and the
  effects. A batter without a profile is reported and left out.
\<close>

fun batter_loop ::
  "env \<Rightarrow> pitcher_profile \<Rightarrow> string list \<Rightarrow> real option list list \<times> string list \<times> effect list" where
  "batter_loop e pitcher_stats [] = ([], [], [])"
| "batter_loop e pitcher_stats (b # bs) =
     (let (batter_stats, tr) = get_batter_profile e b;
          (lineup_data, valid_batters, tr') = batter_loop e pitcher_stats bs
      in (case batter_stats of
            Some st \<Rightarrow> (feature_row pitcher_stats st # lineup_data, b # valid_batters, tr @ tr')
          | None \<Rightarrow> (lineup_data, valid_batters,
                     tr @ [Print (''Batter '' @ b @ '' not found.'')] @ tr')))"

text \<open>\<open>predictions[i][0]\<close>, with its two possible IndexErrors.\<close>

definition prediction_at :: "real list list \<Rightarrow> nat \<Rightarrow> py_error + real" where
  "prediction_at predictions i =
     (if i < length predictions then
        (case predictions ! i of [] \<Rightarrow> Inl IndexError | p # _ \<Rightarrow> Inr p)
      else Inl IndexError)"

text \<open>The loop \<open>for i, batter in enumerate(valid_batters)\<close> that builds \<open>results\<close>.\<close>

fun results_loop ::
  "real list list \<Rightarrow> (nat \<times> string) list \<Rightarrow> matchup list \<Rightarrow> py_error + matchup list" where
  "results_loop predictions [] results = Inr results"
| "results_loop predictions ((i, b) # rest) results =
     (case prediction_at predictions i of
        Inl err \<Rightarrow> Inl err
      | Inr p \<Rightarrow> results_loop predictions rest
                  (results @ [\<lparr>mp_batter = b, predicted_hit_prob = p\<rparr>]))"

text \<open>
  \<open>results.sort(key=..., reverse=True)\<close>: Python sorts stably in ascending order of
  the key; with \<open>reverse=True\<close> it reverses the list before and after that sort, so
  that equal keys keep their original order.
\<close>

definition sort_results :: "matchup list \<Rightarrow> matchup list" where
  "sort_results results = rev (sort_key predicted_hit_prob (rev results))"

definition optimize_lineup :: "env \<Rightarrow> string \<Rightarrow> string list \<Rightarrow> lineup_result \<times> effect list" where
  "optimize_lineup e pitcher_name batter_names =
     (case (model_file e, scaler_file e) of
        (Some model, Some scaler) \<Rightarrow>
          (let (ps, tr1) = get_pitcher_profile e pitcher_name;
               loaded = [LoadModel, LoadScaler] @ tr1
           in (case ps of
                 None \<Rightarrow>
                   (Message (''Pitcher '' @ pitcher_name @ '' not found (or no data available).''),
                    loaded)
               | Some pitcher_stats \<Rightarrow>
                   (let (lineup_data, valid_batters, tr2) =
                          batter_loop e pitcher_stats batter_names;
                        looped = loaded
                          @ [Print (''Optimizing lineup against '' @ pitcher_name @ ''...'')] @ tr2
                    in if lineup_data = [] then (Message ''No valid batters found.'', looped)
                       else
                         (let X_scaled = scaler lineup_data;
                              predictions = model X_scaled;
                              predicted = looped @ [Transform lineup_data, Predict X_scaled]
                          in (case results_loop predictions
                                     (enumerate 0 valid_batters) [] of
                                Inl err \<Rightarrow> (Raised err, predicted)
                              | Inr results \<Rightarrow> (Results (sort_results results), predicted))))))
      | _ \<Rightarrow> (Message ''Model or Scaler not found. Please train the model first.'', []))"

section \<open>The aggregates as the specification words them\<close>






section \<open>Example inputs\<close>

text \<open>
  A three-row history of one pitcher and one batter: a single, a walk and a strikeout.
\<close>

definition example_history :: "pitch_event list" where
  "example_history =
     [\<lparr>pitcher = 543037, batter = 592450, events = Some ''single'',
       release_speed = Some 97, release_spin_rate = Some 2400, p_throws = ''R'', stand = ''R''\<rparr>,
      \<lparr>pitcher = 543037, batter = 592450, events = Some ''walk'',
       release_speed = Some 96, release_spin_rate = None, p_throws = ''R'', stand = ''R''\<rparr>,
      \<lparr>pitcher = 543037, batter = 592450, events = Some ''strikeout'',
       release_speed = Some 98, release_spin_rate = Some 2500, p_throws = ''R'', stand = ''R''\<rparr>]"


text \<open>
  An environment in which everything is present: the provider knows one pitcher and
  one batter, the statistics file holds the aggregates of \<open>example_history\<close>, the
  scaler replaces a missing cell by 0 and the classifier answers with the four
  probabilities 0.3, 0.7, 0.7 and 0.1.
\<close>

definition example_lookup :: provider where
  "example_lookup last_name first_name =
     (if last_name = ''Cole'' \<and> first_name = ''Gerrit'' then LookupTable [543037]
      else if last_name = ''Judge'' \<and> first_name = ''Aaron'' then LookupTable [592450]
      else LookupTable [])"

definition example_env :: env where
  "example_env =
     \<lparr>model_file = Some (\<lambda>X. [[0.3], [0.7], [0.7], [0.1]]),
      scaler_file = Some (map (map (\<lambda>c. case c of None \<Rightarrow> 0 | Some x \<Rightarrow> x))),
      cache_file = Some example_history,
      stats_file = Some [(592450, \<lparr>avg = 0.5, slg = 0.5, iso = 0\<rparr>)],
      playerid_lookup = example_lookup\<rparr>"

section \<open>Strings: auxiliary facts\<close>

lemma pieces_nonempty: "pieces P s \<noteq> []"
  by (induction s) (auto split: list.splits)

lemma length_pieces: "length (pieces P s) = Suc (length (filter P s))"
  by (induction s) (auto split: list.splits simp: pieces_nonempty)

lemma pieces_append_sep:
  "P c \<Longrightarrow> pieces P (xs @ c # ys) = pieces P xs @ pieces P ys"
proof (induction xs)
  case Nil
  then show ?case by simp
next
  case (Cons x xs)
  then show ?case
    by (cases "pieces P xs") (auto simp: pieces_nonempty)
qed

lemma pieces_has_word:
  "\<exists>x \<in> set s. \<not> P x \<Longrightarrow> \<exists>w \<in> set (pieces P s). w \<noteq> []"
proof (induction s)
  case Nil
  then show ?case by simp
next
  case (Cons c cs)
  then show ?case
    by (cases "pieces P cs") (auto simp: pieces_nonempty)
qed

lemma tokens_append_sep:
  "isspace c \<Longrightarrow> whitespace_tokens (xs @ c # ys) = whitespace_tokens xs @ whitespace_tokens ys"
  by (simp add: whitespace_tokens_def pieces_append_sep)

lemma tokens_nonempty:
  "\<exists>x \<in> set s. \<not> isspace x \<Longrightarrow> whitespace_tokens s \<noteq> []"
  using pieces_has_word [of s isspace]
  by (auto simp: whitespace_tokens_def filter_empty_conv)

lemma isspace_space: "isspace (CHR '' '')"
  by (simp add: isspace_def)

lemma strip_decomp:
  "\<exists>pre post. s = pre @ strip s @ post"
proof -
  let ?t = "dropWhile isspace s"
  have a: "s = takeWhile isspace s @ ?t" by simp
  have "rev ?t = takeWhile isspace (rev ?t) @ dropWhile isspace (rev ?t)" by simp
  then have "?t = rev (dropWhile isspace (rev ?t)) @ rev (takeWhile isspace (rev ?t))"
    by (metis rev_append rev_rev_ident)
  then have "?t = strip s @ rev (takeWhile isspace (rev ?t))"
    by (simp add: strip_def)
  with a show ?thesis by metis
qed

lemma strip_hd: "strip s \<noteq> [] \<Longrightarrow> \<not> isspace (hd (strip s))"
proof -
  assume ne: "strip s \<noteq> []"
  let ?t = "dropWhile isspace s"
  let ?u = "dropWhile isspace (rev ?t)"
  have u: "?u \<noteq> []" using ne by (simp add: strip_def)
  have t: "?t \<noteq> []"
  proof
    assume "?t = []"
    with u show False by simp
  qed
  have "rev ?t = takeWhile isspace (rev ?t) @ ?u" by simp
  then have "?t = rev ?u @ rev (takeWhile isspace (rev ?t))"
    by (metis rev_append rev_rev_ident)
  then have "hd ?t = hd (rev ?u)" using u by (metis hd_append2 rev_is_Nil_conv)
  moreover have "\<not> isspace (hd ?t)" using t by (rule hd_dropWhile)
  ultimately show ?thesis by (simp add: strip_def)
qed

lemma strip_last: "strip s \<noteq> [] \<Longrightarrow> \<not> isspace (last (strip s))"
proof -
  assume ne: "strip s \<noteq> []"
  let ?u = "dropWhile isspace (rev (dropWhile isspace s))"
  have u: "?u \<noteq> []" using ne by (simp add: strip_def)
  then have "\<not> isspace (hd ?u)" by (rule hd_dropWhile)
  then show ?thesis using u by (simp add: strip_def last_rev)
qed

lemma two_tokens_of_inner_space:
  assumes sp: "CHR '' '' \<in> set (strip s)"
  shows "2 \<le> length (whitespace_tokens s)"
proof -
  from sp have ne: "strip s \<noteq> []" by auto
  from sp obtain u v where uv: "strip s = u @ CHR '' '' # v"
    by (auto simp: in_set_conv_decomp)
  obtain pre post where s: "s = pre @ strip s @ post"
    using strip_decomp by blast
  have "u \<noteq> []"
  proof
    assume "u = []"
    with uv have "hd (strip s) = CHR '' ''" by simp
    with strip_hd [OF ne] isspace_space show False by simp
  qed
  then have hu: "hd u = hd (strip s)" using uv by simp
  have "v \<noteq> []"
  proof
    assume "v = []"
    with uv have "last (strip s) = CHR '' ''" by simp
    with strip_last [OF ne] isspace_space show False by simp
  qed
  then have lv: "last v = last (strip s)" using uv by simp
  have "hd u \<in> set (pre @ u)" using \<open>u \<noteq> []\<close> by simp
  moreover have "\<not> isspace (hd u)" using hu strip_hd [OF ne] by simp
  ultimately have a: "\<exists>x \<in> set (pre @ u). \<not> isspace x" by blast
  have "last v \<in> set (v @ post)" using \<open>v \<noteq> []\<close> by simp
  moreover have "\<not> isspace (last v)" using lv strip_last [OF ne] by simp
  ultimately have b: "\<exists>x \<in> set (v @ post). \<not> isspace x" by blast
  have "s = (pre @ u) @ CHR '' '' # (v @ post)"
    using s uv by simp
  then have "whitespace_tokens s = whitespace_tokens (pre @ u) @ whitespace_tokens (v @ post)"
    using tokens_append_sep [OF isspace_space, of "pre @ u" "v @ post"] by simp
  moreover have "whitespace_tokens (pre @ u) \<noteq> []" using a by (rule tokens_nonempty)
  moreover have "whitespace_tokens (v @ post) \<noteq> []" using b by (rule tokens_nonempty)
  ultimately show ?thesis
    by (cases "whitespace_tokens (pre @ u)"; cases "whitespace_tokens (v @ post)") simp_all
qed

lemma few_tokens_one_part:
  assumes "length (whitespace_tokens name) < 2"
  shows "length (split_space (strip name)) < 2"
proof -
  have "CHR '' '' \<notin> set (strip name)"
    using assms two_tokens_of_inner_space [of name] by auto
  then have "filter (\<lambda>c. c = CHR '' '') (strip name) = []"
    by (auto simp: filter_empty_conv)
  then show ?thesis
    by (simp add: split_space_def length_pieces)
qed

section \<open>Batter aggregates: auxiliary facts\<close>

lemma calculate_batter_stats_entry:
  "(b, s) \<in> set (calculate_batter_stats df)
   \<longleftrightarrow> b \<in> batter ` set df \<and> s = get_stats (filter (\<lambda>r. batter r = b) df)"
  by (auto simp: calculate_batter_stats_def)




lemma hits_le_tb:
  "count_isin hit_events g \<le> count_eq ''single'' g + 2 * count_eq ''double'' g
     + 3 * count_eq ''triple'' g + 4 * count_eq ''home_run'' g"
  by (induction g) (auto simp: count_isin_def hit_events_def count_eq_def split: option.splits)

lemma get_stats_avg_le_slg: "avg (get_stats g) \<le> slg (get_stats g)"
  using hits_le_tb [of g]
  by (simp add: get_stats_def Let_def divide_right_mono)

lemma get_stats_iso: "iso (get_stats g) = slg (get_stats g) - avg (get_stats g)"
  by (simp add: get_stats_def Let_def)



lemma stats_example_history:
  "calculate_batter_stats example_history = [(592450, \<lparr>avg = 0.5, slg = 0.5, iso = 0\<rparr>)]"
  by (simp add: calculate_batter_stats_def example_history_def get_stats_def count_isin_def
       count_eq_def hit_events_def ab_events_def Let_def)

lemma ab_example_history:
  "count_isin ab_events (filter (\<lambda>r. batter r = 592450) example_history) = 2"
  by (simp add: example_history_def count_isin_def hit_events_def ab_events_def)



section \<open>Profiles and the optimizer: auxiliary facts\<close>

lemmas eval_defs = example_env_def example_lookup_def example_history_def
  optimize_lineup_def get_pitcher_profile_def get_batter_profile_def get_player_id_def
  split_space_def strip_def isspace_def truthy_def mean_def feature_row_def
  prediction_at_def sort_results_def default_batter_profile_def Let_def
  List.map_filter_def enumerate_eq_zip


lemma get_player_id_no_model_effect:
  "x \<in> set (snd (get_player_id lk name)) \<Longrightarrow> \<exists>l f. x = Lookup l f"
  by (auto simp: get_player_id_def Let_def split: lookup_result.splits list.splits if_splits)


lemma get_pitcher_profile_present:
  "cache_file e = Some df \<Longrightarrow> fst (get_pitcher_profile e name) \<noteq> None"
  by (simp add: get_pitcher_profile_def Let_def split: prod.splits)

lemma get_pitcher_profile_no_predict:
  "Predict X \<notin> set (snd (get_pitcher_profile e name))"
  using get_player_id_no_model_effect [of "Predict X" "playerid_lookup e" name]
  by (auto simp: get_pitcher_profile_def Let_def split: option.splits prod.splits if_splits)




lemma get_batter_profile_no_predict:
  "Predict X \<notin> set (snd (get_batter_profile e name))"
  using get_player_id_no_model_effect [of "Predict X" "playerid_lookup e" name]
  by (auto simp: get_batter_profile_def Let_def split: option.splits prod.splits if_splits)


lemma batter_loop_no_predict:
  "Predict X \<notin> set (snd (snd (batter_loop e ps bs)))"
proof (induction bs)
  case Nil
  show ?case by simp
next
  case (Cons b bs)
  obtain st tr where gb: "get_batter_profile e b = (st, tr)"
    by (cases "get_batter_profile e b")
  have a: "Predict X \<notin> set tr"
    using get_batter_profile_no_predict [of X e b] gb by simp
  obtain rows vb tr' where bl: "batter_loop e ps bs = (rows, vb, tr')"
    by (cases "batter_loop e ps bs") auto
  with Cons have b: "Predict X \<notin> set tr'" by simp
  show ?case using gb bl a b by (cases st) simp_all
qed

lemma batter_loop_valid:
  "fst (snd (batter_loop e ps bs)) = filter (\<lambda>b. fst (get_batter_profile e b) \<noteq> None) bs"
  by (induction bs) (auto simp: Let_def split: prod.splits option.splits)

lemma batter_loop_length:
  "length (fst (batter_loop e ps bs)) = length (fst (snd (batter_loop e ps bs)))"
  by (induction bs) (auto simp: Let_def split: prod.splits option.splits)

lemma results_loop_batters:
  "results_loop preds (enumerate n vb) acc = Inr rs
   \<Longrightarrow> map mp_batter rs = map mp_batter acc @ vb"
  by (induction vb arbitrary: n acc) (auto split: sum.splits)

lemma sort_results_sorted:
  "sorted_wrt (\<lambda>a b. predicted_hit_prob b \<le> predicted_hit_prob a) (sort_results rs)"
proof -
  have "sorted (map predicted_hit_prob (sort_key predicted_hit_prob (rev rs)))"
    by simp
  then show ?thesis
    by (simp add: sort_results_def sorted_wrt_rev sorted_map)
qed

lemma sort_results_stable:
  "filter (\<lambda>r. predicted_hit_prob r = p) (sort_results rs)
   = filter (\<lambda>r. predicted_hit_prob r = p) rs"
  by (simp add: sort_results_def rev_filter [symmetric] sort_key_stable)

lemma sort_results_mset: "mset (sort_results rs) = mset rs"
  by (simp add: sort_results_def)


lemma batter_loop_none:
  "\<forall>b \<in> set bs. fst (get_batter_profile e b) = None \<Longrightarrow> fst (batter_loop e ps bs) = []"
  by (induction bs) (auto simp: Let_def split: prod.splits option.splits)


lemma optimize_lineup_absent:
  "model_file e = None \<or> scaler_file e = None \<Longrightarrow>
   optimize_lineup e pn bs = (Message ''Model or Scaler not found. Please train the model first.'', [])"
  by (auto simp: optimize_lineup_def split: option.splits)

lemma optimize_lineup_no_rows:
  assumes "\<forall>b \<in> set bs. fst (get_batter_profile e b) = None"
  shows "(\<exists>msg. fst (optimize_lineup e pn bs) = Message msg)
         \<and> Predict X \<notin> set (snd (optimize_lineup e pn bs))"
proof (cases "model_file e = None \<or> scaler_file e = None")
  case True
  then show ?thesis by (simp add: optimize_lineup_absent)
next
  case False
  then obtain m sc where ms: "model_file e = Some m" "scaler_file e = Some sc" by auto
  obtain ps tr1 where pp: "get_pitcher_profile e pn = (ps, tr1)" by (cases "get_pitcher_profile e pn")
  have np1: "Predict X \<notin> set tr1"
    using get_pitcher_profile_no_predict [of X e pn] pp by simp
  show ?thesis
  proof (cases ps)
    case None
    with ms pp np1 show ?thesis by (simp add: optimize_lineup_def)
  next
    case (Some pst)
    obtain rows vb tr2 where bl: "batter_loop e pst bs = (rows, vb, tr2)"
      by (cases "batter_loop e pst bs") auto
    have "rows = []" using batter_loop_none [OF assms, of pst] bl by simp
    moreover have "Predict X \<notin> set tr2"
      using batter_loop_no_predict [of X e pst bs] bl by simp
    ultimately show ?thesis
      using ms pp np1 Some bl by (simp add: optimize_lineup_def)
  qed
qed

lemma optimize_lineup_no_rows_message:
  assumes "\<forall>b \<in> set bs. fst (get_batter_profile e b) = None"
    and "model_file e \<noteq> None" and "scaler_file e \<noteq> None" and "cache_file e \<noteq> None"
  shows "fst (optimize_lineup e pn bs) = Message ''No valid batters found.''"
proof -
  from assms obtain m sc df where ms: "model_file e = Some m" "scaler_file e = Some sc"
    and df: "cache_file e = Some df" by auto
  obtain ps tr1 where pp: "get_pitcher_profile e pn = (ps, tr1)" by (cases "get_pitcher_profile e pn")
  with get_pitcher_profile_present [OF df, of pn] obtain pst where ps: "ps = Some pst" by auto
  obtain rows vb tr2 where bl: "batter_loop e pst bs = (rows, vb, tr2)"
    by (cases "batter_loop e pst bs") auto
  have "rows = []" using batter_loop_none [OF assms(1), of pst] bl by simp
  then show ?thesis
    using ms pp ps bl by (simp add: optimize_lineup_def)
qed

lemma optimize_lineup_results:
  assumes "optimize_lineup e pn bs = (Results out, tr)"
  shows "\<exists>rs. out = sort_results rs
              \<and> map mp_batter rs = filter (\<lambda>b. fst (get_batter_profile e b) \<noteq> None) bs"
proof -
  from assms obtain m sc where ms: "model_file e = Some m" "scaler_file e = Some sc"
    by (auto simp: optimize_lineup_def split: option.splits)
  obtain ps tr1 where pp: "get_pitcher_profile e pn = (ps, tr1)" by (cases "get_pitcher_profile e pn")
  from assms ms pp obtain pst where ps: "ps = Some pst"
    by (cases ps) (auto simp: optimize_lineup_def)
  obtain rows vb tr2 where bl: "batter_loop e pst bs = (rows, vb, tr2)"
    by (cases "batter_loop e pst bs") auto
  from assms ms pp ps bl obtain rs where
    rl: "results_loop (m (sc rows)) (enumerate 0 vb) [] = Inr rs" and out: "out = sort_results rs"
    by (auto simp: optimize_lineup_def Let_def split: if_splits sum.splits)
  have "map mp_batter rs = vb" using results_loop_batters [OF rl] by simp
  moreover have "vb = filter (\<lambda>b. fst (get_batter_profile e b) \<noteq> None) bs"
    using batter_loop_valid [of e pst bs] bl by simp
  ultimately show ?thesis using out by blast
qed


lemma ranking_example:
  "fst (optimize_lineup example_env ''Gerrit Cole'' [''A'', ''B'', ''C'', ''D''])
   = Results [\<lparr>mp_batter = ''B'', predicted_hit_prob = 0.7\<rparr>,
              \<lparr>mp_batter = ''C'', predicted_hit_prob = 0.7\<rparr>,
              \<lparr>mp_batter = ''A'', predicted_hit_prob = 0.3\<rparr>,
              \<lparr>mp_batter = ''D'', predicted_hit_prob = 0.1\<rparr>]"
  by (simp add: eval_defs)

section \<open>Claims\<close>

text \<open>
  Claim C10. \<open>get_player_id\<close> returns \<open>None\<close> for every name with fewer than two
  whitespace-separated tokens, and it does so without calling the name-resolution
  provider (the effect list is empty); and when the provider raises at the last and
  first name it is called with, the exception is absorbed and the result is \<open>None\<close>.
  Whatever the provider does, the only effects are calls of the provider.
\<close>

theorem get_player_id_not_found:
  "(length (whitespace_tokens name) < 2 \<longrightarrow> get_player_id lookup name = (None, []))
   \<and> (lookup (join_space (drop 1 (split_space (strip name)))) (split_space (strip name) ! 0)
          = LookupRaises
        \<longrightarrow> fst (get_player_id lookup name) = None)
   \<and> (\<forall>e \<in> set (snd (get_player_id lookup name)). \<exists>last first. e = Lookup last first)"
proof (intro conjI impI)
  assume "length (whitespace_tokens name) < 2"
  then have "length (split_space (strip name)) < 2" by (rule few_tokens_one_part)
  then show "get_player_id lookup name = (None, [])"
    by (simp add: get_player_id_def)
next
  assume "lookup (join_space (drop 1 (split_space (strip name)))) (split_space (strip name) ! 0)
          = LookupRaises"
  then show "fst (get_player_id lookup name) = None"
    by (simp add: get_player_id_def Let_def)
next
  show "\<forall>e \<in> set (snd (get_player_id lookup name)). \<exists>last first. e = Lookup last first"
    by (auto simp: get_player_id_def Let_def split: lookup_result.splits list.splits)
qed

theorem get_player_id_not_found_witness:
  "length (whitespace_tokens ''Cole'') < 2
   \<and> get_player_id (\<lambda>last first. LookupRaises) ''Cole'' = (None, [])
   \<and> split_space (strip ''Gerrit Cole'') = [''Gerrit'', ''Cole'']
   \<and> fst (get_player_id (\<lambda>last first. LookupRaises) ''Gerrit Cole'') = None
   \<and> snd (get_player_id (\<lambda>last first. LookupRaises) ''Gerrit Cole'') = [Lookup ''Cole'' ''Gerrit'']"
proof -
  have tk: "length (whitespace_tokens ''Cole'') < 2"
    by (simp add: whitespace_tokens_def isspace_def)
  have tr: "snd (get_player_id (\<lambda>last first. LookupRaises) ''Gerrit Cole'')
            = [Lookup ''Cole'' ''Gerrit'']"
    by (simp add: get_player_id_def split_space_def strip_def isspace_def)
  have sp: "split_space (strip ''Gerrit Cole'') = [''Gerrit'', ''Cole'']"
    by (simp add: split_space_def strip_def isspace_def)
  show ?thesis
    using tk tr sp get_player_id_not_found [of "''Cole''" "\<lambda>last first. LookupRaises"]
      get_player_id_not_found [of "''Gerrit Cole''" "\<lambda>last first. LookupRaises"]
    by simp
qed



text \<open>
  Claim C4. For every historical dataset and every batter with at least one at-bat,
  the isolated power computed by \<open>calculate_batter_stats\<close> is the computed slugging
  minus the computed average.
\<close>

theorem iso_is_slg_minus_avg:
  assumes "(b, s) \<in> set (calculate_batter_stats df)"
    and "0 < count_isin ab_events (filter (\<lambda>r. batter r = b) df)"
  shows "iso s = slg s - avg s"
proof -
  from assms(1) have "s = get_stats (filter (\<lambda>r. batter r = b) df)"
    by (simp add: calculate_batter_stats_entry)
  then show ?thesis
    by (simp add: get_stats_iso)
qed

theorem iso_is_slg_minus_avg_witness:
  "(592450, \<lparr>avg = 0.5, slg = 0.5, iso = 0\<rparr>) \<in> set (calculate_batter_stats example_history)
   \<and> 0 < count_isin ab_events (filter (\<lambda>r. batter r = 592450) example_history)
   \<and> iso \<lparr>avg = 0.5, slg = 0.5, iso = 0\<rparr>
       = slg \<lparr>avg = 0.5, slg = 0.5, iso = 0\<rparr> - avg \<lparr>avg = 0.5, slg = 0.5, iso = 0\<rparr>"
proof -
  have m: "(592450, \<lparr>avg = 0.5, slg = 0.5, iso = 0\<rparr>) \<in> set (calculate_batter_stats example_history)"
    by (simp add: stats_example_history)
  have a: "0 < count_isin ab_events (filter (\<lambda>r. batter r = 592450) example_history)"
    by (simp add: ab_example_history)
  show ?thesis
    using m a iso_is_slg_minus_avg [OF m a] by simp
qed

text \<open>
  Claim C5. For every historical dataset and every batter entry that
  \<open>calculate_batter_stats\<close> derives from it, the computed average is at most the
  computed slugging; without at-bats both are 0.
\<close>

theorem avg_le_slg:
  assumes "(b, s) \<in> set (calculate_batter_stats df)"
  shows "avg s \<le> slg s"
proof -
  from assms have "s = get_stats (filter (\<lambda>r. batter r = b) df)"
    by (simp add: calculate_batter_stats_entry)
  then show ?thesis
    by (simp add: get_stats_avg_le_slg)
qed

theorem avg_le_slg_witness:
  "(592450, \<lparr>avg = 0.5, slg = 0.5, iso = 0\<rparr>) \<in> set (calculate_batter_stats example_history)
   \<and> avg \<lparr>avg = 0.5, slg = 0.5, iso = 0\<rparr> \<le> slg \<lparr>avg = 0.5, slg = 0.5, iso = 0\<rparr>"
proof -
  have m: "(592450, \<lparr>avg = 0.5, slg = 0.5, iso = 0\<rparr>) \<in> set (calculate_batter_stats example_history)"
    by (simp add: stats_example_history)
  show ?thesis
    using m avg_le_slg [OF m] by simp
qed



text \<open>
  Claim C7. If the trained model artifact or the scaler artifact is absent,
  \<open>optimize_lineup\<close> returns the message that the model or scaler was not found, as a
  value, and performs no effect at all: nothing is loaded, looked up or predicted.
\<close>

theorem missing_artifact_message:
  assumes "model_file e = None \<or> scaler_file e = None"
  shows "optimize_lineup e pitcher_name batter_names
         = (Message ''Model or Scaler not found. Please train the model first.'', [])"
  using assms by (auto simp: optimize_lineup_def split: option.splits)

theorem missing_artifact_message_witness:
  "(model_file (example_env\<lparr>scaler_file := None\<rparr>) = None
      \<or> scaler_file (example_env\<lparr>scaler_file := None\<rparr>) = None)
   \<and> optimize_lineup (example_env\<lparr>scaler_file := None\<rparr>) ''Gerrit Cole'' [''Aaron Judge'']
       = (Message ''Model or Scaler not found. Please train the model first.'', [])"
  using missing_artifact_message [of "example_env\<lparr>scaler_file := None\<rparr>"
      "''Gerrit Cole''" "[''Aaron Judge'']"]
  by simp

text \<open>
  Claim C8. When no batter of the list yields a profile, and so no feature vector (in
  particular when the list is empty), \<open>optimize_lineup\<close> returns a failure message
  and never calls the classifier's predict operation; once the artifacts and the
  historical dataset are present, so that the batter loop is reached, that message is
  the one for no valid batters.
\<close>

theorem no_valid_batters_message:
  assumes "\<forall>b \<in> set batter_names. fst (get_batter_profile e b) = None"
  shows "(\<exists>msg. fst (optimize_lineup e pitcher_name batter_names) = Message msg)
         \<and> (\<forall>X. Predict X \<notin> set (snd (optimize_lineup e pitcher_name batter_names)))
         \<and> (model_file e \<noteq> None \<and> scaler_file e \<noteq> None \<and> cache_file e \<noteq> None
              \<longrightarrow> fst (optimize_lineup e pitcher_name batter_names)
                    = Message ''No valid batters found.'')"
  using optimize_lineup_no_rows [OF assms] optimize_lineup_no_rows_message [OF assms]
  by blast

theorem no_valid_batters_message_witness:
  "fst (get_batter_profile (example_env\<lparr>stats_file := None\<rparr>) ''Aaron Judge'') = None
   \<and> fst (optimize_lineup (example_env\<lparr>stats_file := None\<rparr>) ''Gerrit Cole'' [''Aaron Judge''])
       = Message ''No valid batters found.''
   \<and> fst (optimize_lineup example_env ''Gerrit Cole'' []) = Message ''No valid batters found.''"
proof -
  have h: "\<forall>b \<in> set [''Aaron Judge''].
             fst (get_batter_profile (example_env\<lparr>stats_file := None\<rparr>) b) = None"
    by (simp add: get_batter_profile_def example_env_def)
  have h0: "\<forall>b \<in> set []. fst (get_batter_profile example_env b) = None"
    by simp
  show ?thesis
    using h no_valid_batters_message [OF h, of "''Gerrit Cole''"]
      no_valid_batters_message [OF h0, of "''Gerrit Cole''"]
    by (simp add: example_env_def)
qed

text \<open>
  Claim C2. \<open>optimize_lineup\<close> sorts its predictions in descending order of the
  predicted probability, and stably: the sorted list is a rearrangement of the
  unsorted one, in which the entries of any one probability keep their order; whenever
  a ranking is returned it is the sorted form of a list whose batters are the valid
  batters in input order. For the batters A, B, C, D with probabilities 0.3, 0.7, 0.7,
  0.1 the ranking is B, C, A, D.
\<close>

theorem ranking_descending_stable:
  "sorted_wrt (\<lambda>a b. predicted_hit_prob b \<le> predicted_hit_prob a) (sort_results rs)
   \<and> filter (\<lambda>r. predicted_hit_prob r = p) (sort_results rs)
       = filter (\<lambda>r. predicted_hit_prob r = p) rs
   \<and> mset (sort_results rs) = mset rs
   \<and> (optimize_lineup e pitcher_name batter_names = (Results out, tr)
        \<longrightarrow> (\<exists>us. out = sort_results us
                   \<and> map mp_batter us
                       = filter (\<lambda>b. fst (get_batter_profile e b) \<noteq> None) batter_names))
   \<and> fst (optimize_lineup example_env ''Gerrit Cole'' [''A'', ''B'', ''C'', ''D''])
       = Results [\<lparr>mp_batter = ''B'', predicted_hit_prob = 0.7\<rparr>,
                  \<lparr>mp_batter = ''C'', predicted_hit_prob = 0.7\<rparr>,
                  \<lparr>mp_batter = ''A'', predicted_hit_prob = 0.3\<rparr>,
                  \<lparr>mp_batter = ''D'', predicted_hit_prob = 0.1\<rparr>]"
proof (intro conjI impI)
  show "sorted_wrt (\<lambda>a b. predicted_hit_prob b \<le> predicted_hit_prob a) (sort_results rs)"
    by (rule sort_results_sorted)
  show "filter (\<lambda>r. predicted_hit_prob r = p) (sort_results rs)
        = filter (\<lambda>r. predicted_hit_prob r = p) rs"
    by (rule sort_results_stable)
  show "mset (sort_results rs) = mset rs"
    by (rule sort_results_mset)
  show "fst (optimize_lineup example_env ''Gerrit Cole'' [''A'', ''B'', ''C'', ''D''])
       = Results [\<lparr>mp_batter = ''B'', predicted_hit_prob = 0.7\<rparr>,
                  \<lparr>mp_batter = ''C'', predicted_hit_prob = 0.7\<rparr>,
                  \<lparr>mp_batter = ''A'', predicted_hit_prob = 0.3\<rparr>,
                  \<lparr>mp_batter = ''D'', predicted_hit_prob = 0.1\<rparr>]"
    by (rule ranking_example)
next
  assume "optimize_lineup e pitcher_name batter_names = (Results out, tr)"
  then show "\<exists>us. out = sort_results us
                \<and> map mp_batter us
                    = filter (\<lambda>b. fst (get_batter_profile e b) \<noteq> None) batter_names"
    by (rule optimize_lineup_results)
qed

theorem ranking_descending_stable_witness:
  "optimize_lineup example_env ''Gerrit Cole'' [''Aaron Judge'', ''Juan Soto'']
     = (Results [\<lparr>mp_batter = ''Juan Soto'', predicted_hit_prob = 0.7\<rparr>,
                 \<lparr>mp_batter = ''Aaron Judge'', predicted_hit_prob = 0.3\<rparr>],
        snd (optimize_lineup example_env ''Gerrit Cole'' [''Aaron Judge'', ''Juan Soto'']))
   \<and> (\<exists>us. [\<lparr>mp_batter = ''Juan Soto'', predicted_hit_prob = 0.7\<rparr>,
             \<lparr>mp_batter = ''Aaron Judge'', predicted_hit_prob = 0.3\<rparr>] = sort_results us
           \<and> map mp_batter us
               = filter (\<lambda>b. fst (get_batter_profile example_env b) \<noteq> None)
                   [''Aaron Judge'', ''Juan Soto''])"
proof -
  have "fst (optimize_lineup example_env ''Gerrit Cole'' [''Aaron Judge'', ''Juan Soto''])
        = Results [\<lparr>mp_batter = ''Juan Soto'', predicted_hit_prob = 0.7\<rparr>,
                   \<lparr>mp_batter = ''Aaron Judge'', predicted_hit_prob = 0.3\<rparr>]"
    by (simp add: eval_defs)
  then have h: "optimize_lineup example_env ''Gerrit Cole'' [''Aaron Judge'', ''Juan Soto'']
     = (Results [\<lparr>mp_batter = ''Juan Soto'', predicted_hit_prob = 0.7\<rparr>,
                 \<lparr>mp_batter = ''Aaron Judge'', predicted_hit_prob = 0.3\<rparr>],
        snd (optimize_lineup example_env ''Gerrit Cole'' [''Aaron Judge'', ''Juan Soto'']))"
    by (metis prod.collapse)
  show ?thesis
    using h ranking_descending_stable [of "[]" 0 example_env "''Gerrit Cole''"
        "[''Aaron Judge'', ''Juan Soto'']"
        "[\<lparr>mp_batter = ''Juan Soto'', predicted_hit_prob = 0.7\<rparr>,
          \<lparr>mp_batter = ''Aaron Judge'', predicted_hit_prob = 0.3\<rparr>]"
        "snd (optimize_lineup example_env ''Gerrit Cole'' [''Aaron Judge'', ''Juan Soto''])"]
    by blast
qed







end
